theory Spec2Isabelle
  imports Complex_Main
begin

section \<open>Data model\<close>

text \<open>
  The timeline front end works on scrobbles (types/index.ts) and on a time range
  (hooks/useScrobbleTimeline.ts). A JavaScript \<open>Date\<close> is represented by its time value,
  the whole number of milliseconds since the epoch, and the ISO string \<open>listened_at\<close> of a
  scrobble by the time value that \<open>new Date(listened_at)\<close> yields; all dates are valid dates.
  The field \<open>id\<close> of a scrobble is \<open>scrobble_id\<close> here, and \<open>start\<close> and \<open>end\<close> of a range
  are \<open>range_start\<close> and \<open>range_end\<close>.
\<close>

record Scrobble =
  scrobble_id :: int
  user_id :: int
  artist :: string
  album :: "string option"
  track :: string
  listened_at :: int
  image_url :: "string option"
  created_at :: string

record TimeRange =
  range_start :: int
  range_end :: int

section \<open>JavaScript numbers\<close>

text \<open>
  Positions are IEEE doubles. A finite double is represented by the rational number it
  stands for (rounding is not modelled); the infinities and \<open>NaN\<close>, which a division by
  zero produces, are values of their own, and \<open>Math.min\<close>, \<open>Math.max\<close>, \<open>*\<close> and \<open>-\<close>
  treat them as JavaScript does.
\<close>

datatype jsnum = Num rat | PosInf | NegInf | NaN

text \<open>Quotient of two integer-valued numbers; a zero divisor is the positive zero.\<close>

definition js_divide :: "int \<Rightarrow> int \<Rightarrow> jsnum" where
  "js_divide a b =
     (if b = 0 then (if a = 0 then NaN else if 0 < a then PosInf else NegInf)
      else Num (rat_of_int a / rat_of_int b))"

fun Math_min :: "jsnum \<Rightarrow> jsnum \<Rightarrow> jsnum" where
  "Math_min NaN y = NaN"
| "Math_min x NaN = NaN"
| "Math_min NegInf y = NegInf"
| "Math_min x NegInf = NegInf"
| "Math_min PosInf y = y"
| "Math_min x PosInf = x"
| "Math_min (Num a) (Num b) = Num (min a b)"

fun Math_max :: "jsnum \<Rightarrow> jsnum \<Rightarrow> jsnum" where
  "Math_max NaN y = NaN"
| "Math_max x NaN = NaN"
| "Math_max PosInf y = PosInf"
| "Math_max x PosInf = PosInf"
| "Math_max NegInf y = y"
| "Math_max x NegInf = x"
| "Math_max (Num a) (Num b) = Num (max a b)"

fun js_times :: "jsnum \<Rightarrow> jsnum \<Rightarrow> jsnum" where
  "js_times NaN y = NaN"
| "js_times x NaN = NaN"
| "js_times (Num a) (Num b) = Num (a * b)"
| "js_times (Num a) PosInf = (if a = 0 then NaN else if 0 < a then PosInf else NegInf)"
| "js_times (Num a) NegInf = (if a = 0 then NaN else if 0 < a then NegInf else PosInf)"
| "js_times PosInf (Num b) = (if b = 0 then NaN else if 0 < b then PosInf else NegInf)"
| "js_times NegInf (Num b) = (if b = 0 then NaN else if 0 < b then NegInf else PosInf)"
| "js_times PosInf PosInf = PosInf"
| "js_times PosInf NegInf = NegInf"
| "js_times NegInf PosInf = NegInf"
| "js_times NegInf NegInf = PosInf"

fun js_minus :: "jsnum \<Rightarrow> jsnum \<Rightarrow> jsnum" where
  "js_minus NaN y = NaN"
| "js_minus x NaN = NaN"
| "js_minus (Num a) (Num b) = Num (a - b)"
| "js_minus (Num a) PosInf = NegInf"
| "js_minus (Num a) NegInf = PosInf"
| "js_minus PosInf PosInf = NaN"
| "js_minus PosInf y = PosInf"
| "js_minus NegInf NegInf = NaN"
| "js_minus NegInf y = NegInf"

section \<open>Layout of the horizontal timeline (ScrobbleTimeline.tsx)\<close>

subsection \<open>date-fns helpers\<close>

text \<open>
  date-fns is a library outside the repository. \<open>differenceInMilliseconds\<close> subtracts the
  time values. \<open>differenceInDays\<close> counts the full days between two dates in the local
  calendar of the browser, so its value depends on the time zone: across a change of the
  clocks a local day has 23 or 25 hours. The functions that call it take it as the
  parameter \<open>differenceInDays\<close>, and what is proved of them holds for every time zone.
\<close>

definition differenceInMilliseconds :: "int \<Rightarrow> int \<Rightarrow> int" where
  "differenceInMilliseconds dateLeft dateRight = dateLeft - dateRight"

text \<open>
  In a time zone whose offset never changes (UTC, for one) every local day has 86400000
  milliseconds, and the full days between two dates are the elapsed time in such days,
  truncated towards zero. The concrete scenarios below are set in such a zone.
\<close>

definition differenceInDays_fixedOffset :: "int \<Rightarrow> int \<Rightarrow> int" where
  "differenceInDays_fixedOffset dateLeft dateRight =
     (let d = dateLeft - dateRight in sgn d * (\<bar>d\<bar> div 86400000))"

subsection \<open>Timeline width\<close>

definition MIN_SCROBBLE_WIDTH :: int where
  "MIN_SCROBBLE_WIDTH = 60"

definition MIN_TIMELINE_WIDTH :: int where
  "MIN_TIMELINE_WIDTH = 800"

definition daysInRange :: "(int \<Rightarrow> int \<Rightarrow> int) \<Rightarrow> TimeRange \<Rightarrow> int" where
  "daysInRange differenceInDays timeRange =
     differenceInDays (range_end timeRange) (range_start timeRange) + 1"

definition calculateTimelineWidth ::
  "(int \<Rightarrow> int \<Rightarrow> int) \<Rightarrow> Scrobble list \<Rightarrow> TimeRange \<Rightarrow> int" where
  "calculateTimelineWidth differenceInDays scrobbles timeRange =
     (let minWidthForScrobbles = int (length scrobbles) * MIN_SCROBBLE_WIDTH;
          widthBasedOnDays = daysInRange differenceInDays timeRange * 200
      in max (max minWidthForScrobbles widthBasedOnDays) MIN_TIMELINE_WIDTH)"

subsection \<open>Positions of the scrobbles\<close>

record PositionedScrobble = Scrobble +
  position :: jsnum

definition positionPercentage :: "int \<Rightarrow> int \<Rightarrow> jsnum" where
  "positionPercentage msFromStart timeRangeMs =
     Math_max (Num 0) (Math_min (Num 1) (js_divide msFromStart timeRangeMs))"

definition positionScrobbles :: "int \<Rightarrow> Scrobble list \<Rightarrow> TimeRange \<Rightarrow> PositionedScrobble list" where
  "positionScrobbles width scrobbles timeRange =
     (if length scrobbles = 0 then []
      else
        let timeRangeMs = differenceInMilliseconds (range_end timeRange) (range_start timeRange)
        in map (\<lambda>scrobble.
                  let scrobbleDate = listened_at scrobble;
                      msFromStart = differenceInMilliseconds scrobbleDate (range_start timeRange);
                      position = js_times (positionPercentage msFromStart timeRangeMs)
                                          (Num (rat_of_int width))
                  in Scrobble.extend scrobble (PositionedScrobble.fields position))
               scrobbles)"

subsection \<open>Time markers\<close>

text \<open>
  The label of a marker is the text date-fns \<open>format\<close> produces for a date and a pattern;
  it is kept as that pair. The field \<open>position\<close> of a marker is \<open>marker_position\<close> here.
\<close>

datatype formatted = Format int string

record TimeMarker =
  marker_position :: jsnum
  label :: formatted
  date :: int

definition intervalHours :: "int \<Rightarrow> int" where
  "intervalHours days =
     (if days \<le> 1 then 1
      else if days \<le> 7 then 6
      else if days \<le> 31 then 24
      else 24 * 7)"

definition formatString :: "int \<Rightarrow> string" where
  "formatString days =
     (if days \<le> 1 then ''h:mm a''
      else if days \<le> 7 then ''MMM d, h a''
      else if days \<le> 31 then ''MMM d''
      else ''MMM d'')"

text \<open>
  The \<open>while\<close> loop of \<open>generateTimeMarkers\<close>, for any step: \<open>None\<close> stands for a loop that
  does not come to an end.
\<close>

partial_function (option) markerLoop ::
  "int \<Rightarrow> TimeRange \<Rightarrow> int \<Rightarrow> int \<Rightarrow> string \<Rightarrow> int \<Rightarrow> TimeMarker list \<Rightarrow> TimeMarker list option" where
  "markerLoop width timeRange timeRangeMs hours fmt currentDate markers =
     (if currentDate \<le> range_end timeRange then
        let msFromStart = differenceInMilliseconds currentDate (range_start timeRange);
            position = js_times (positionPercentage msFromStart timeRangeMs)
                                (Num (rat_of_int width))
        in markerLoop width timeRange timeRangeMs hours fmt
             (currentDate + hours * 60 * 60 * 1000)
             (markers @ [\<lparr>marker_position = position,
                          label = Format currentDate fmt,
                          date = currentDate\<rparr>])
      else Some markers)"

declare markerLoop.simps [code]

definition generateTimeMarkers ::
  "(int \<Rightarrow> int \<Rightarrow> int) \<Rightarrow> int \<Rightarrow> TimeRange \<Rightarrow> TimeMarker list option" where
  "generateTimeMarkers differenceInDays width timeRange =
     (let timeRangeMs = differenceInMilliseconds (range_end timeRange) (range_start timeRange);
          days = daysInRange differenceInDays timeRange
      in markerLoop width timeRange timeRangeMs (intervalHours days) (formatString days)
           (range_start timeRange) [])"

subsection \<open>Scrolling to the selected scrobble\<close>

text \<open>
  Of the timeline element only \<open>clientWidth\<close> is read; \<open>None\<close> is the null ref. The result
  is the \<open>left\<close> coordinate handed to \<open>scrollTo\<close>, or \<open>None\<close> when the function returns
  without scrolling.
\<close>

definition scrollToScrobble :: "int option \<Rightarrow> PositionedScrobble list \<Rightarrow> Scrobble \<Rightarrow> jsnum option" where
  "scrollToScrobble timelineElement positionedScrobbles scrobble =
     (case timelineElement of
        None \<Rightarrow> None
      | Some clientWidth \<Rightarrow>
          (case find (\<lambda>s. scrobble_id s = scrobble_id scrobble) positionedScrobbles of
             None \<Rightarrow> None
           | Some positioned \<Rightarrow>
               let scrollPosition = js_minus (position positioned) (js_divide clientWidth 2)
               in Some (Math_max (Num 0) scrollPosition)))"

definition scrollEffect :: "int option \<Rightarrow> PositionedScrobble list \<Rightarrow> Scrobble option \<Rightarrow> jsnum option" where
  "scrollEffect timelineElement positionedScrobbles selected =
     (case selected of
        None \<Rightarrow> None
      | Some s \<Rightarrow> scrollToScrobble timelineElement positionedScrobbles s)"

section \<open>Pagination of the vertical timeline (MUIScrobbleTimeline.tsx)\<close>

definition itemsPerPage :: int where
  "itemsPerPage = 25"

definition totalPages :: "Scrobble list \<Rightarrow> int" where
  "totalPages scrobbles = \<lceil>rat_of_int (int (length scrobbles)) / rat_of_int itemsPerPage\<rceil>"

text \<open>The handlers return the new value of the state cell \<open>currentPage\<close>.\<close>

definition goToFirstPage :: "Scrobble list \<Rightarrow> int \<Rightarrow> int" where
  "goToFirstPage scrobbles prev = 1"

definition goToPreviousPage :: "Scrobble list \<Rightarrow> int \<Rightarrow> int" where
  "goToPreviousPage scrobbles prev = max (prev - 1) 1"

definition goToNextPage :: "Scrobble list \<Rightarrow> int \<Rightarrow> int" where
  "goToNextPage scrobbles prev = min (prev + 1) (totalPages scrobbles)"

definition goToLastPage :: "Scrobble list \<Rightarrow> int \<Rightarrow> int" where
  "goToLastPage scrobbles prev = totalPages scrobbles"

definition goToPage :: "int \<Rightarrow> Scrobble list \<Rightarrow> int \<Rightarrow> int" where
  "goToPage page scrobbles prev = page"

text \<open>
  The page input: \<open>parseInt\<close> of the typed text is \<open>None\<close> for \<open>NaN\<close>. \<open>onChange\<close> passes
  a value on only when it is a page; \<open>onBlur\<close> moves a value outside the pages to the
  nearest end.
\<close>

definition onChange :: "int option \<Rightarrow> Scrobble list \<Rightarrow> int \<Rightarrow> int" where
  "onChange v scrobbles prev =
     (case v of
        None \<Rightarrow> prev
      | Some value \<Rightarrow>
          if value \<ge> 1 \<and> value \<le> totalPages scrobbles then goToPage value scrobbles prev
          else prev)"

definition onBlur :: "int option \<Rightarrow> Scrobble list \<Rightarrow> int \<Rightarrow> int" where
  "onBlur v scrobbles prev =
     (case v of
        None \<Rightarrow> goToPage 1 scrobbles prev
      | Some value \<Rightarrow>
          if value < 1 then goToPage 1 scrobbles prev
          else if value > totalPages scrobbles then goToPage (totalPages scrobbles) scrobbles prev
          else prev)"

section \<open>The data hook (useScrobbleTimeline.ts)\<close>

subsection \<open>Sorting and removing duplicates\<close>

text \<open>
  \<open>Array.prototype.sort\<close> with a comparison function is a stable sort; \<open>findIndex\<close> gives
  the first index whose element satisfies the predicate, or \<open>-1\<close>; the callback of
  \<open>filter\<close> receives the element, its index and the array.
\<close>

fun insort_cmp :: "('a \<Rightarrow> 'a \<Rightarrow> int) \<Rightarrow> 'a \<Rightarrow> 'a list \<Rightarrow> 'a list" where
  "insort_cmp cmp x [] = [x]"
| "insort_cmp cmp x (y # ys) = (if cmp x y \<le> 0 then x # y # ys else y # insort_cmp cmp x ys)"

definition array_sort :: "('a \<Rightarrow> 'a \<Rightarrow> int) \<Rightarrow> 'a list \<Rightarrow> 'a list" where
  "array_sort cmp xs = foldr (insort_cmp cmp) xs []"

fun findIndex :: "('a \<Rightarrow> bool) \<Rightarrow> 'a list \<Rightarrow> int" where
  "findIndex p [] = - 1"
| "findIndex p (x # xs) =
     (if p x then 0 else (let i = findIndex p xs in if i = - 1 then - 1 else i + 1))"

fun array_filter :: "('a \<Rightarrow> int \<Rightarrow> 'a list \<Rightarrow> bool) \<Rightarrow> int \<Rightarrow> 'a list \<Rightarrow> 'a list \<Rightarrow> 'a list" where
  "array_filter f index self [] = []"
| "array_filter f index self (x # xs) =
     (if f x index self then x # array_filter f (index + 1) self xs
      else array_filter f (index + 1) self xs)"

definition sortedScrobbles :: "Scrobble list \<Rightarrow> Scrobble list" where
  "sortedScrobbles response_scrobbles =
     array_sort (\<lambda>a b. listened_at b - listened_at a) response_scrobbles"

definition uniqueScrobbles :: "Scrobble list \<Rightarrow> Scrobble list" where
  "uniqueScrobbles sortedList =
     array_filter
       (\<lambda>scrobble index self. index = findIndex (\<lambda>s. scrobble_id s = scrobble_id scrobble) self)
       0 sortedList sortedList"

subsection \<open>State of the hook\<close>

record hook_state =
  timeRange :: TimeRange
  loading :: bool
  error :: "string option"
  scrobbles :: "Scrobble list"
  selectedScrobble :: "Scrobble option"
  hoveredScrobble :: "Scrobble option"

definition setTimeRange :: "TimeRange \<Rightarrow> hook_state \<Rightarrow> hook_state" where
  "setTimeRange r h = h\<lparr>timeRange := r\<rparr>"

definition setLoading :: "bool \<Rightarrow> hook_state \<Rightarrow> hook_state" where
  "setLoading b h = h\<lparr>loading := b\<rparr>"

definition setError :: "string option \<Rightarrow> hook_state \<Rightarrow> hook_state" where
  "setError e h = h\<lparr>error := e\<rparr>"

definition setScrobbles :: "Scrobble list \<Rightarrow> hook_state \<Rightarrow> hook_state" where
  "setScrobbles xs h = h\<lparr>scrobbles := xs\<rparr>"

definition setSelectedScrobble :: "Scrobble option \<Rightarrow> hook_state \<Rightarrow> hook_state" where
  "setSelectedScrobble s h = h\<lparr>selectedScrobble := s\<rparr>"

definition setHoveredScrobble :: "Scrobble option \<Rightarrow> hook_state \<Rightarrow> hook_state" where
  "setHoveredScrobble s h = h\<lparr>hoveredScrobble := s\<rparr>"

subsection \<open>fetchScrobbles\<close>

text \<open>
  A thrown value is an \<open>Error\<close> with its message or something else. The three awaited
  calls each either throw or answer; the user lookup answers with the user's id, or with
  no data.
\<close>

datatype thrown = Error string | NotAnError

record api_replies =
  fetchResponse :: "thrown + unit"
  userResponse :: "thrown + int option"
  response :: "thrown + Scrobble list"

definition message :: "thrown \<Rightarrow> string" where
  "message err = (case err of Error m \<Rightarrow> m | NotAnError \<Rightarrow> ''An unknown error occurred'')"

text \<open>The \<open>try\<close> block: the value thrown, or the list handed to \<open>setScrobbles\<close>.\<close>

definition fetchScrobbles_try :: "string \<Rightarrow> api_replies \<Rightarrow> thrown + Scrobble list" where
  "fetchScrobbles_try username replies =
     (case fetchResponse replies of
        Inl err \<Rightarrow> Inl err
      | Inr _ \<Rightarrow>
          (case userResponse replies of
             Inl err \<Rightarrow> Inl err
           | Inr None \<Rightarrow> Inl (Error (''User '' @ username @ '' not found''))
           | Inr (Some userId) \<Rightarrow>
               (case response replies of
                  Inl err \<Rightarrow> Inl err
                | Inr data \<Rightarrow> Inr (uniqueScrobbles (sortedScrobbles data)))))"

text \<open>
  \<open>fetchScrobbles\<close> runs in two steps of the event loop: the part before the first
  \<open>await\<close>, and the part after the replies (\<open>setScrobbles\<close> or \<open>catch\<close>, then \<open>finally\<close>).
  Between them the function changes no state. It catches every thrown value itself, so
  the \<open>catch\<close> of the effect that calls it is never entered.
\<close>

definition fetchScrobbles_begin :: "string \<Rightarrow> hook_state \<Rightarrow> hook_state" where
  "fetchScrobbles_begin username h =
     (if username = [] then h else setError None (setLoading True h))"

definition fetchScrobbles_settle :: "string \<Rightarrow> api_replies \<Rightarrow> hook_state \<Rightarrow> hook_state" where
  "fetchScrobbles_settle username replies h =
     setLoading False
       (case fetchScrobbles_try username replies of
          Inr unique \<Rightarrow> setScrobbles unique h
        | Inl err \<Rightarrow> setError (Some (message err)) h)"

section \<open>The view (ScrobbleTimelineView.tsx)\<close>

text \<open>
  The view owns the hook and renders the paginated timeline only while
  \<open>!loading && !error && scrobbles.length > 0\<close>; an error that is the empty string is
  falsy. The state cell \<open>currentPage\<close> of the timeline lives as long as the timeline is
  rendered: it is \<open>useState(1)\<close> when the timeline is mounted and is discarded when the
  timeline is unmounted. \<open>None\<close> stands for a timeline that is not rendered.
\<close>

definition timelineShown :: "hook_state \<Rightarrow> bool" where
  "timelineShown h \<longleftrightarrow>
     \<not> loading h \<and> (error h = None \<or> error h = Some []) \<and> length (scrobbles h) > 0"

text \<open>
  The world is the hook, the page of the timeline, and the calls of \<open>fetchScrobbles\<close> that
  still await their replies; each call is listed with the time range its closure holds.
  The effect starts a call on mount and after every change of the range (every call of
  \<open>setTimeRange\<close> in the components passes a new object). The replies of an outstanding
  call may arrive at any time and in any order.
\<close>

record world =
  username :: string
  hook :: hook_state
  inflight :: "TimeRange list"
  currentPage :: "int option"

datatype navigation =
    First
  | Previous
  | Next
  | Last
  | Change "int option"
  | Blur "int option"

datatype event =
    RangeChange TimeRange
  | Replies nat api_replies
  | Select "Scrobble option"
  | Hover "Scrobble option"
  | Navigate navigation

fun navigate :: "navigation \<Rightarrow> Scrobble list \<Rightarrow> int \<Rightarrow> int" where
  "navigate First xs prev = goToFirstPage xs prev"
| "navigate Previous xs prev = goToPreviousPage xs prev"
| "navigate Next xs prev = goToNextPage xs prev"
| "navigate Last xs prev = goToLastPage xs prev"
| "navigate (Change v) xs prev = onChange v xs prev"
| "navigate (Blur v) xs prev = onBlur v xs prev"

definition render :: "world \<Rightarrow> world" where
  "render w =
     (if timelineShown (hook w)
      then (case currentPage w of None \<Rightarrow> w\<lparr>currentPage := Some 1\<rparr> | Some p \<Rightarrow> w)
      else w\<lparr>currentPage := None\<rparr>)"

definition startFetch :: "world \<Rightarrow> world" where
  "startFetch w =
     (if username w = [] then w
      else w\<lparr>hook := fetchScrobbles_begin (username w) (hook w),
              inflight := inflight w @ [timeRange (hook w)]\<rparr>)"

definition mount :: "string \<Rightarrow> TimeRange \<Rightarrow> world" where
  "mount name initialTimeRange =
     render (startFetch
       \<lparr>username = name,
        hook = \<lparr>timeRange = initialTimeRange, loading = False, error = None, scrobbles = [],
                selectedScrobble = None, hoveredScrobble = None\<rparr>,
        inflight = [],
        currentPage = None\<rparr>)"

fun handle :: "world \<Rightarrow> event \<Rightarrow> world" where
  "handle w (RangeChange r) = startFetch (w\<lparr>hook := setTimeRange r (hook w)\<rparr>)"
| "handle w (Replies i replies) =
     (if i < length (inflight w)
      then w\<lparr>hook := fetchScrobbles_settle (username w) replies (hook w),
              inflight := take i (inflight w) @ drop (Suc i) (inflight w)\<rparr>
      else w)"
| "handle w (Select s) = w\<lparr>hook := setSelectedScrobble s (hook w)\<rparr>"
| "handle w (Hover s) = w\<lparr>hook := setHoveredScrobble s (hook w)\<rparr>"
| "handle w (Navigate n) =
     (case currentPage w of
        None \<Rightarrow> w
      | Some prev \<Rightarrow> w\<lparr>currentPage := Some (navigate n (scrobbles (hook w)) prev)\<rparr>)"

text \<open>An event is handled, then the view is rendered again.\<close>

definition step :: "world \<Rightarrow> event \<Rightarrow> world" where
  "step w e = render (handle w e)"

definition run :: "world \<Rightarrow> event list \<Rightarrow> world" where
  "run w es = foldl step w es"

section \<open>Example data\<close>

text \<open>A scrobble with a given id and listening time, for the concrete scenarios below.\<close>

definition exampleScrobble :: "int \<Rightarrow> int \<Rightarrow> Scrobble" where
  "exampleScrobble i t =
     \<lparr>scrobble_id = i, user_id = 1, artist = ''artist'', album = None, track = ''track'',
      listened_at = t, image_url = None, created_at = ''2025-04-03''\<rparr>"

definition exampleRange :: "int \<Rightarrow> int \<Rightarrow> TimeRange" where
  "exampleRange s e = \<lparr>range_start = s, range_end = e\<rparr>"

text \<open>A list of n scrobbles with the ids 0, ..., n - 1.\<close>

definition exampleScrobbles :: "nat \<Rightarrow> Scrobble list" where
  "exampleScrobbles n = map (\<lambda>i. exampleScrobble (int i) 0) [0..<n]"

text \<open>Replies of the three calls that all answer, the last with the given scrobbles.\<close>

definition okReplies :: "Scrobble list \<Rightarrow> api_replies" where
  "okReplies d = \<lparr>fetchResponse = Inr (), userResponse = Inr (Some 7), response = Inr d\<rparr>"

text \<open>Replies in which the user lookup answers without data.\<close>

definition failReplies :: api_replies where
  "failReplies = \<lparr>fetchResponse = Inr (), userResponse = Inr None, response = Inr []\<rparr>"

section \<open>Properties\<close>

subsection \<open>Timeline width\<close>

lemma differenceInDays_fixedOffset_whole:
  "\<bar>differenceInDays_fixedOffset e s\<bar> * 86400000 \<le> \<bar>e - s\<bar> \<and>
   \<bar>e - s\<bar> < (\<bar>differenceInDays_fixedOffset e s\<bar> + 1) * 86400000 \<and>
   0 \<le> differenceInDays_fixedOffset e s * (e - s)"
proof -
  define d where "d = e - s"
  define q where "q = \<bar>d\<bar> div 86400000"
  have q0: "0 \<le> q" unfolding q_def by simp
  have dd: "differenceInDays_fixedOffset e s = sgn d * q"
    by (simp add: differenceInDays_fixedOffset_def d_def q_def Let_def)
  have absq: "\<bar>sgn d * q\<bar> = (if d = 0 then 0 else q)"
    using q0 by (simp add: abs_mult)
  have qz: "d = 0 \<Longrightarrow> q = 0" by (simp add: q_def)
  have lo: "q * 86400000 \<le> \<bar>d\<bar>" unfolding q_def by simp
  have hi: "\<bar>d\<bar> < (q + 1) * 86400000"
    unfolding q_def using div_mult_mod_eq[of "\<bar>d\<bar>" 86400000]
      pos_mod_bound[of 86400000 "\<bar>d\<bar>"] by (simp add: algebra_simps)
  have sg: "0 \<le> sgn d * q * d"
    using q0 by (cases "d < 0"; cases "d = 0") (simp_all add: mult_nonneg_nonpos mult_nonpos_nonpos)
  show ?thesis
    unfolding dd d_def[symmetric] using absq qz lo hi sg by (cases "d = 0") simp_all
qed

text \<open>
  C1. For every time range and every list of scrobbles, in every time zone, the width is
  the greatest of 60 pixels per scrobble, 200 pixels per day of the range and 800 pixels,
  where the days of the range are the whole days between start and end, as
  \<open>differenceInDays\<close> of date-fns counts them, plus one. In particular the width is at
  least 800.
\<close>

theorem calculateTimelineWidth_formula:
  "calculateTimelineWidth differenceInDays xs r =
     Max {int (length xs) * 60,
          (differenceInDays (range_end r) (range_start r) + 1) * 200,
          800}
   \<and> int (length xs) * 60 \<le> calculateTimelineWidth differenceInDays xs r
   \<and> (differenceInDays (range_end r) (range_start r) + 1) * 200
        \<le> calculateTimelineWidth differenceInDays xs r
   \<and> 800 \<le> calculateTimelineWidth differenceInDays xs r"
proof -
  define a where "a = int (length xs) * 60"
  define b where "b = (differenceInDays (range_end r) (range_start r) + 1) * 200"
  have w: "calculateTimelineWidth differenceInDays xs r = max (max a b) 800"
    by (simp add: calculateTimelineWidth_def daysInRange_def MIN_SCROBBLE_WIDTH_def
        MIN_TIMELINE_WIDTH_def Let_def a_def b_def)
  have m: "Max {a, b, 800} = max (max a b) 800"
    by (simp add: max.commute max.left_commute)
  show ?thesis
    unfolding a_def[symmetric] b_def[symmetric] w m by (simp add: le_max_iff_disj)
qed

text \<open>
  In a time zone with a fixed offset: ten scrobbles in a range of six days and five
  milliseconds, which has six full days, get the width 1400 = 7 * 200; three scrobbles
  in a range of one hour get the width 800.
\<close>

theorem calculateTimelineWidth_formula_witness:
  "differenceInDays_fixedOffset (6 * 86400000 + 5) 0 = 6
   \<and> calculateTimelineWidth differenceInDays_fixedOffset (replicate 10 (exampleScrobble 1 0))
        (exampleRange 0 (6 * 86400000 + 5)) = 1400
   \<and> calculateTimelineWidth differenceInDays_fixedOffset (replicate 3 (exampleScrobble 1 0))
        (exampleRange 0 3600000) = 800"
proof -
  have d: "differenceInDays_fixedOffset (6 * 86400000 + 5) 0 = 6"
    "differenceInDays_fixedOffset 3600000 0 = 0"
    by (simp_all add: differenceInDays_fixedOffset_def Let_def)
  have a: "calculateTimelineWidth differenceInDays_fixedOffset (replicate 10 (exampleScrobble 1 0))
        (exampleRange 0 (6 * 86400000 + 5)) = 1400"
    using calculateTimelineWidth_formula
      [of differenceInDays_fixedOffset "replicate 10 (exampleScrobble 1 0)"
          "exampleRange 0 (6 * 86400000 + 5)"]
    unfolding exampleRange_def TimeRange.simps d by simp
  have b: "calculateTimelineWidth differenceInDays_fixedOffset (replicate 3 (exampleScrobble 1 0))
        (exampleRange 0 3600000) = 800"
    using calculateTimelineWidth_formula
      [of differenceInDays_fixedOffset "replicate 3 (exampleScrobble 1 0)"
          "exampleRange 0 3600000"]
    unfolding exampleRange_def TimeRange.simps d by simp
  show ?thesis using d(1) a b by simp
qed

subsection \<open>Positions\<close>

lemma positionPercentage_pos:
  "0 < b \<Longrightarrow> positionPercentage a b = Num (max 0 (min 1 (rat_of_int a / rat_of_int b)))"
  by (simp add: positionPercentage_def js_divide_def)

lemma positionPercentage_zero:
  "positionPercentage a 0 = (if a = 0 then NaN else if 0 < a then Num 1 else Num 0)"
  by (simp add: positionPercentage_def js_divide_def)

lemma positionScrobbles_map:
  "positionScrobbles w xs r =
     map (\<lambda>s. Scrobble.extend s (PositionedScrobble.fields
            (js_times (positionPercentage (listened_at s - range_start r)
                         (range_end r - range_start r)) (Num (rat_of_int w))))) xs"
  by (cases xs) (simp_all add: positionScrobbles_def differenceInMilliseconds_def Let_def)

lemma extend_fields [simp]:
  "position (Scrobble.extend s (PositionedScrobble.fields q)) = q"
  "listened_at (Scrobble.extend s (PositionedScrobble.fields q)) = listened_at s"
  "scrobble_id (Scrobble.extend s (PositionedScrobble.fields q)) = scrobble_id s"
  by (simp_all add: Scrobble.defs PositionedScrobble.defs)

lemma position_of:
  assumes "p \<in> set (positionScrobbles w xs r)"
  shows "position p = js_times (positionPercentage (listened_at p - range_start r)
                         (range_end r - range_start r)) (Num (rat_of_int w))"
  using assms unfolding positionScrobbles_map by auto

lemma offset_bounds:
  fixes w :: int and a b :: int
  assumes "0 < b" "0 \<le> w"
  shows "\<exists>q. js_times (positionPercentage a b) (Num (rat_of_int w)) = Num q \<and> 0 \<le> q \<and> q \<le> rat_of_int w"
proof -
  define f where "f = max 0 (min 1 (rat_of_int a / rat_of_int b))"
  have f: "0 \<le> f" "f \<le> 1" by (simp_all add: f_def)
  have w: "0 \<le> rat_of_int w" using assms(2) by simp
  have "0 \<le> f * rat_of_int w" using f(1) w by simp
  moreover have "f * rat_of_int w \<le> rat_of_int w"
    using mult_right_mono[OF f(2) w] by simp
  ultimately show ?thesis
    using positionPercentage_pos[OF assms(1), of a] by (simp add: f_def)
qed

text \<open>
  C2, as the claim states it, fails for a range of length zero: the quotient by zero is
  taken. In the range from 0 to 0 a scrobble at time 5 gets the fraction 1 and the offset
  800, the whole width, and a scrobble at time 0 gets \<open>NaN\<close>.
\<close>

theorem positionScrobbles_zero_range_counterexample:
  "range_start (exampleRange 0 0) = range_end (exampleRange 0 0)
   \<and> map position
        (positionScrobbles
           (calculateTimelineWidth differenceInDays_fixedOffset [exampleScrobble 1 5, exampleScrobble 2 0] (exampleRange 0 0))
           [exampleScrobble 1 5, exampleScrobble 2 0] (exampleRange 0 0))
       = [Num 800, NaN]"
  by (simp add: positionScrobbles_map positionPercentage_zero calculateTimelineWidth_def
      daysInRange_def differenceInDays_fixedOffset_def exampleScrobble_def exampleRange_def
      MIN_SCROBBLE_WIDTH_def MIN_TIMELINE_WIDTH_def Let_def)

text \<open>
  C2, amended. Every scrobble is positioned. In every time zone, for every range with
  start < end the offset
  of every positioned scrobble lies in [0, timelineWidth]. For a range of length zero
  there is no special case: a scrobble before the start gets offset 0 and a scrobble
  after the start gets offset timelineWidth.
\<close>

theorem positionScrobbles_offsets:
  "length (positionScrobbles (calculateTimelineWidth differenceInDays xs r) xs r) = length xs
   \<and> (\<forall>p \<in> set (positionScrobbles (calculateTimelineWidth differenceInDays xs r) xs r).
        (range_start r < range_end r \<longrightarrow>
           (\<exists>q. position p = Num q \<and> 0 \<le> q \<and> q \<le> rat_of_int (calculateTimelineWidth differenceInDays xs r)))
        \<and> (range_start r = range_end r \<and> listened_at p < range_start r \<longrightarrow>
             position p = Num 0)
        \<and> (range_start r = range_end r \<and> range_start r < listened_at p \<longrightarrow>
             position p = Num (rat_of_int (calculateTimelineWidth differenceInDays xs r))))"
proof -
  define w where "w = calculateTimelineWidth differenceInDays xs r"
  have w: "0 \<le> w"
    by (simp add: w_def calculateTimelineWidth_def MIN_TIMELINE_WIDTH_def Let_def)
  have len: "length (positionScrobbles w xs r) = length xs"
    by (simp add: positionScrobbles_map)
  have "(range_start r < range_end r \<longrightarrow>
           (\<exists>q. position p = Num q \<and> 0 \<le> q \<and> q \<le> rat_of_int w))
        \<and> (range_start r = range_end r \<and> listened_at p < range_start r \<longrightarrow>
             position p = Num 0)
        \<and> (range_start r = range_end r \<and> range_start r < listened_at p \<longrightarrow>
             position p = Num (rat_of_int w))"
    if p: "p \<in> set (positionScrobbles w xs r)" for p
  proof -
    note pos = position_of[OF p]
    have a: "\<exists>q. position p = Num q \<and> 0 \<le> q \<and> q \<le> rat_of_int w"
      if "range_start r < range_end r"
      using offset_bounds[of "range_end r - range_start r" w "listened_at p - range_start r"]
        that w pos by simp
    have b: "position p = Num 0"
      if "range_start r = range_end r" "listened_at p < range_start r"
      using that pos by (simp add: positionPercentage_zero)
    have c: "position p = Num (rat_of_int w)"
      if "range_start r = range_end r" "range_start r < listened_at p"
      using that pos by (simp add: positionPercentage_zero)
    show ?thesis using a b c by blast
  qed
  then show ?thesis using len unfolding w_def by blast
qed

text \<open>
  The range from 0 to 10 with scrobbles at 5 and 20, and the range from 0 to 0 with
  scrobbles at 5 and -4, in a time zone with a fixed offset; the width is 800 in both.
\<close>

theorem positionScrobbles_offsets_witness:
  "range_start (exampleRange 0 10) < range_end (exampleRange 0 10)
   \<and> map position
        (positionScrobbles
           (calculateTimelineWidth differenceInDays_fixedOffset [exampleScrobble 1 5, exampleScrobble 4 20] (exampleRange 0 10))
           [exampleScrobble 1 5, exampleScrobble 4 20] (exampleRange 0 10))
       = [Num 400, Num 800]
   \<and> range_start (exampleRange 0 0) = range_end (exampleRange 0 0)
   \<and> map position
        (positionScrobbles
           (calculateTimelineWidth differenceInDays_fixedOffset [exampleScrobble 1 5, exampleScrobble 3 (- 4)] (exampleRange 0 0))
           [exampleScrobble 1 5, exampleScrobble 3 (- 4)] (exampleRange 0 0))
       = [Num 800, Num 0]"
  using positionScrobbles_offsets[of differenceInDays_fixedOffset "[exampleScrobble 1 5, exampleScrobble 4 20]" "exampleRange 0 10"]
    positionScrobbles_offsets[of differenceInDays_fixedOffset "[exampleScrobble 1 5, exampleScrobble 3 (- 4)]" "exampleRange 0 0"]
  by (simp add: positionScrobbles_map positionPercentage_zero positionPercentage_pos
      calculateTimelineWidth_def
      daysInRange_def differenceInDays_fixedOffset_def exampleScrobble_def exampleRange_def
      MIN_SCROBBLE_WIDTH_def MIN_TIMELINE_WIDTH_def Let_def)

subsection \<open>Time markers\<close>

lemma intervalHours_cases:
  "intervalHours d = 1 \<or> intervalHours d = 6 \<or> intervalHours d = 24 \<or> intervalHours d = 168"
  by (simp add: intervalHours_def)

lemma intervalHours_pos: "0 < intervalHours d"
  using intervalHours_cases[of d] by auto

lemma count_step:
  fixes c e s :: int
  assumes "0 < s" "c \<le> e"
  shows "nat ((e - c) div s) + 1 = Suc (if c + s \<le> e then nat ((e - (c + s)) div s) + 1 else 0)"
proof (cases "c + s \<le> e")
  case True
  have "(e - c) div s = (e - (c + s) + s) div s" by (simp add: algebra_simps)
  also have "\<dots> = (e - (c + s)) div s + 1"
    using div_add_self2[of s "e - (c + s)"] assms(1) by simp
  finally have eq: "(e - c) div s = (e - (c + s)) div s + 1" .
  have "0 \<le> (e - (c + s)) div s"
    using True assms(1) by (simp add: pos_imp_zdiv_nonneg_iff)
  then show ?thesis using True eq by (simp add: nat_add_distrib)
next
  case False
  then have "0 \<le> e - c" "e - c < s" using assms by simp_all
  then have "(e - c) div s = 0" by (simp add: div_pos_pos_trivial)
  then show ?thesis using False by simp
qed

lemma markerLoop_closed:
  fixes mk :: "int \<Rightarrow> TimeMarker" and r :: TimeRange and ms w :: int and fmt :: string
  defines "mk \<equiv> \<lambda>t. \<lparr>marker_position =
                            js_times (positionPercentage (t - range_start r) ms) (Num (rat_of_int w)),
                          label = Format t fmt, date = t\<rparr>"
  assumes h: "0 < hours"
  shows "markerLoop w r ms hours fmt cur acc =
           Some (acc @ map (\<lambda>k. mk (cur + int k * (hours * 3600000)))
                          [0..<(if cur \<le> range_end r
                                then nat ((range_end r - cur) div (hours * 3600000)) + 1 else 0)])"
proof (induction "nat (range_end r - cur + 1)" arbitrary: cur acc rule: less_induct)
  case less
  define s where "s = hours * 3600000"
  have s: "0 < s" using h by (simp add: s_def)
  show ?case
  proof (cases "cur \<le> range_end r")
    case False
    then show ?thesis by (subst markerLoop.simps) simp
  next
    case True
    have dec: "nat (range_end r - (cur + s) + 1) < nat (range_end r - cur + 1)"
      using True s by simp
    have unfold: "markerLoop w r ms hours fmt cur acc =
        markerLoop w r ms hours fmt (cur + s) (acc @ [mk cur])"
      using True
      by (subst markerLoop.simps)
        (simp add: mk_def differenceInMilliseconds_def Let_def s_def mult.commute)
    note ih = less[OF dec, of "acc @ [mk cur]", folded s_def]
    have cnt: "nat ((range_end r - cur) div s) + 1 =
        Suc (if cur + s \<le> range_end r then nat ((range_end r - (cur + s)) div s) + 1 else 0)"
      by (rule count_step[OF s True])
    have shift: "(\<lambda>k. mk (cur + int (Suc k) * s)) = (\<lambda>k. mk (cur + s + int k * s))"
      by (rule ext) (simp add: algebra_simps)
    show ?thesis
      unfolding s_def[symmetric] unfold ih using True
      by (simp only: cnt if_True map_upt_Suc shift) simp
  qed
qed

text \<open>
  The loop as such need not come to an end: with a step of zero hours it never returns
  once it has been entered. Termination below rests on the step being positive.
\<close>

lemma markerLoop_zero_step_aux:
  assumes "markerLoop w r ms hours fmt cur acc = Some y"
  shows "\<not> (hours = 0 \<and> cur \<le> range_end r)"
proof (rule markerLoop.raw_induct
    [where P = "\<lambda>w r ms hours fmt cur acc y. \<not> (hours = 0 \<and> cur \<le> range_end r)", OF _ assms])
  fix loop and w r ms hours fmt cur and acc y :: "TimeMarker list"
  assume ih: "\<And>w r ms hours fmt cur acc y. loop w r ms hours fmt cur acc = Some y \<Longrightarrow>
      \<not> (hours = 0 \<and> cur \<le> range_end r)"
    and body: "(if cur \<le> range_end r
        then let msFromStart = differenceInMilliseconds cur (range_start r);
                 position = js_times (positionPercentage msFromStart ms) (Num (rat_of_int w))
             in loop w r ms hours fmt (cur + hours * 60 * 60 * 1000)
                  (acc @ [\<lparr>marker_position = position, label = Format cur fmt, date = cur\<rparr>])
        else Some acc) = Some y"
  show "\<not> (hours = 0 \<and> cur \<le> range_end r)"
  proof
    assume z: "hours = 0 \<and> cur \<le> range_end r"
    with body have "loop w r ms hours fmt cur
        (acc @ [\<lparr>marker_position =
                   js_times (positionPercentage (differenceInMilliseconds cur (range_start r)) ms)
                     (Num (rat_of_int w)),
                 label = Format cur fmt, date = cur\<rparr>]) = Some y"
      by (simp add: Let_def)
    from ih[OF this] z show False by simp
  qed
qed

lemma markerLoop_zero_step:
  "cur \<le> range_end r \<Longrightarrow> markerLoop w r ms 0 fmt cur acc = None"
  using markerLoop_zero_step_aux[of w r ms 0 fmt cur acc]
  by (cases "markerLoop w r ms 0 fmt cur acc") auto

lemma generateTimeMarkers_closed:
  "generateTimeMarkers differenceInDays w r =
     Some (map (\<lambda>k. \<lparr>marker_position =
                         js_times (positionPercentage
                                     (range_start r
                                        + int k * (intervalHours (daysInRange differenceInDays r) * 3600000)
                                        - range_start r)
                                     (range_end r - range_start r))
                                  (Num (rat_of_int w)),
                       label = Format (range_start r
                                        + int k * (intervalHours (daysInRange differenceInDays r) * 3600000))
                                      (formatString (daysInRange differenceInDays r)),
                       date = range_start r
                                + int k * (intervalHours (daysInRange differenceInDays r) * 3600000)\<rparr>)
            [0..<(if range_start r \<le> range_end r
                  then nat ((range_end r - range_start r)
                            div (intervalHours (daysInRange differenceInDays r) * 3600000)) + 1
                  else 0)])"
  unfolding generateTimeMarkers_def Let_def differenceInMilliseconds_def
  by (subst markerLoop_closed[OF intervalHours_pos]) simp

lemma instants_set:
  fixes a e s :: int
  assumes "0 < s" "a \<le> e"
  shows "(\<lambda>k. a + int k * s) ` {0..<nat ((e - a) div s) + 1} = {t. \<exists>k::nat. t = a + int k * s \<and> t \<le> e}"
proof (intro set_eqI iffI)
  fix t assume "t \<in> (\<lambda>k. a + int k * s) ` {0..<nat ((e - a) div s) + 1}"
  then obtain k where k: "k < nat ((e - a) div s) + 1" "t = a + int k * s" by auto
  have q: "0 \<le> (e - a) div s" using assms by (simp add: pos_imp_zdiv_nonneg_iff)
  from k(1) q have "int k \<le> (e - a) div s" by linarith
  then have "int k * s \<le> ((e - a) div s) * s" using assms(1) by (simp add: mult_right_mono)
  also have "\<dots> \<le> e - a"
    using div_mult_mod_eq[of "e - a" s] pos_mod_sign[OF assms(1), of "e - a"] by linarith
  finally show "t \<in> {t. \<exists>k::nat. t = a + int k * s \<and> t \<le> e}" using k(2) by auto
next
  fix t assume "t \<in> {t. \<exists>k::nat. t = a + int k * s \<and> t \<le> e}"
  then obtain k :: nat where k: "t = a + int k * s" "t \<le> e" by auto
  then have "int k * s \<le> e - a" by simp
  then have "(int k * s) div s \<le> (e - a) div s" using assms(1) by (rule zdiv_mono1)
  then have "int k \<le> (e - a) div s" using assms(1) by simp
  then have "k < nat ((e - a) div s) + 1" by linarith
  then show "t \<in> (\<lambda>k. a + int k * s) ` {0..<nat ((e - a) div s) + 1}" using k(1) by auto
qed

text \<open>
  C3. For every range with start <= end, in every time zone, the interval is chosen from
  the days of the range, the full days between start and end plus one (at most 1 day:
  1 hour; at most 7 days: 6 hours; at most 31 days: 24 hours; more: 7 days, the first
  row that matches), and the markers are exactly those at the instants
  start + k * interval, k = 0, 1, 2, ..., that are not after the end, in this order; no
  marker lies after the end.
\<close>

theorem generateTimeMarkers_instants:
  fixes differenceInDays :: "int \<Rightarrow> int \<Rightarrow> int" and r :: TimeRange
  defines "days \<equiv> differenceInDays (range_end r) (range_start r) + 1"
  defines "hours \<equiv> (if days \<le> 1 then 1 else if days \<le> 7 then 6 else if days \<le> 31 then 24
                       else 7 * 24)"
  defines "interval \<equiv> hours * 3600000"
  assumes "range_start r \<le> range_end r"
  shows "\<exists>ms. generateTimeMarkers differenceInDays w r = Some ms
     \<and> map date ms =
         map (\<lambda>k. range_start r + int k * interval)
           [0..<nat ((range_end r - range_start r) div interval) + 1]
     \<and> date ` set ms = {t. \<exists>k::nat. t = range_start r + int k * interval \<and> t \<le> range_end r}
     \<and> sorted_wrt (<) (map date ms)
     \<and> (\<forall>m \<in> set ms. date m \<le> range_end r)"
proof -
  have h: "intervalHours (daysInRange differenceInDays r) = hours"
    by (simp add: intervalHours_def daysInRange_def hours_def days_def)
  have s: "0 < interval"
    using intervalHours_pos[of "daysInRange differenceInDays r"] unfolding h
    by (simp add: interval_def)
  define n where "n = nat ((range_end r - range_start r) div interval) + 1"
  obtain ms where ms: "generateTimeMarkers differenceInDays w r = Some ms"
    and dates: "map date ms = map (\<lambda>k. range_start r + int k * interval) [0..<n]"
    using assms(4) unfolding generateTimeMarkers_closed h interval_def n_def
    by (simp add: comp_def)
  have "date ` set ms = set (map date ms)" by simp
  also have "\<dots> = (\<lambda>k. range_start r + int k * interval) ` {0..<n}"
    unfolding dates by simp
  also have "\<dots> = {t. \<exists>k::nat. t = range_start r + int k * interval \<and> t \<le> range_end r}"
    unfolding n_def by (rule instants_set[OF s assms(4)])
  finally have img: "date ` set ms =
      {t. \<exists>k::nat. t = range_start r + int k * interval \<and> t \<le> range_end r}" .
  have bound: "\<forall>m \<in> set ms. date m \<le> range_end r"
    using img by auto
  have "sorted_wrt (<) (map (\<lambda>k. range_start r + int k * interval) [0..<n])"
    using s by (simp add: sorted_wrt_map sorted_wrt_iff_nth_less)
  then have inc: "sorted_wrt (<) (map date ms)" by (simp only: dates)
  show ?thesis
    using ms dates img inc bound unfolding n_def by blast
qed

text \<open>
  In a time zone with a fixed offset, one range for every row of the table: two hours
  (1 day, hourly markers), exactly one day (2 days, markers every 6 hours), exactly
  eight days (9 days, daily markers) and exactly 35 days (36 days, weekly markers).
\<close>

theorem generateTimeMarkers_instants_witness:
  "range_start (exampleRange 0 7200000) \<le> range_end (exampleRange 0 7200000)
   \<and> map_option (map date)
        (generateTimeMarkers differenceInDays_fixedOffset 800 (exampleRange 0 7200000))
       = Some [0, 3600000, 7200000]
   \<and> map_option (map date)
        (generateTimeMarkers differenceInDays_fixedOffset 800 (exampleRange 0 86400000))
       = Some [0, 21600000, 43200000, 64800000, 86400000]
   \<and> map_option (map date)
        (generateTimeMarkers differenceInDays_fixedOffset 1800 (exampleRange 0 (8 * 86400000)))
       = Some [0, 86400000, 172800000, 259200000, 345600000, 432000000, 518400000,
               604800000, 691200000]
   \<and> map_option (map date)
        (generateTimeMarkers differenceInDays_fixedOffset 7200 (exampleRange 0 (35 * 86400000)))
       = Some [0, 604800000, 1209600000, 1814400000, 2419200000, 3024000000]"
proof -
  have d: "differenceInDays_fixedOffset 7200000 0 = 0"
    "differenceInDays_fixedOffset 86400000 0 = 1"
    "differenceInDays_fixedOffset 691200000 0 = 8"
    "differenceInDays_fixedOffset 3024000000 0 = 35"
    by (simp_all add: differenceInDays_fixedOffset_def Let_def)
  have le: "range_start (exampleRange 0 e) \<le> range_end (exampleRange 0 e)" if "0 \<le> e" for e
    using that by (simp add: exampleRange_def)
  have a: "map_option (map date)
        (generateTimeMarkers differenceInDays_fixedOffset 800 (exampleRange 0 7200000))
       = Some [0, 3600000, 7200000]"
  proof -
    obtain ms where "generateTimeMarkers differenceInDays_fixedOffset 800 (exampleRange 0 7200000) = Some ms"
      and "map date ms =
         map (\<lambda>k. 0 + int k * (1 * 3600000)) [0..<nat ((7200000 - 0) div (1 * 3600000)) + 1]"
      using generateTimeMarkers_instants[OF le, of 7200000 differenceInDays_fixedOffset 800]
      unfolding exampleRange_def TimeRange.simps d by auto
    then show ?thesis by (simp add: upt_rec)
  qed
  have b: "map_option (map date)
        (generateTimeMarkers differenceInDays_fixedOffset 800 (exampleRange 0 86400000))
       = Some [0, 21600000, 43200000, 64800000, 86400000]"
  proof -
    obtain ms where "generateTimeMarkers differenceInDays_fixedOffset 800 (exampleRange 0 86400000) = Some ms"
      and "map date ms =
         map (\<lambda>k. 0 + int k * (6 * 3600000)) [0..<nat ((86400000 - 0) div (6 * 3600000)) + 1]"
      using generateTimeMarkers_instants[OF le, of 86400000 differenceInDays_fixedOffset 800]
      unfolding exampleRange_def TimeRange.simps d by auto
    then show ?thesis by (simp add: upt_rec)
  qed
  have c: "map_option (map date)
        (generateTimeMarkers differenceInDays_fixedOffset 1800 (exampleRange 0 (8 * 86400000)))
       = Some [0, 86400000, 172800000, 259200000, 345600000, 432000000, 518400000,
               604800000, 691200000]"
  proof -
    obtain ms where "generateTimeMarkers differenceInDays_fixedOffset 1800 (exampleRange 0 691200000) = Some ms"
      and "map date ms =
         map (\<lambda>k. 0 + int k * (24 * 3600000)) [0..<nat ((691200000 - 0) div (24 * 3600000)) + 1]"
      using generateTimeMarkers_instants[OF le, of 691200000 differenceInDays_fixedOffset 1800]
      unfolding exampleRange_def TimeRange.simps d by auto
    then show ?thesis by (simp add: upt_rec)
  qed
  have e: "map_option (map date)
        (generateTimeMarkers differenceInDays_fixedOffset 7200 (exampleRange 0 (35 * 86400000)))
       = Some [0, 604800000, 1209600000, 1814400000, 2419200000, 3024000000]"
  proof -
    obtain ms where "generateTimeMarkers differenceInDays_fixedOffset 7200 (exampleRange 0 3024000000) = Some ms"
      and "map date ms =
         map (\<lambda>k. 0 + int k * (7 * 24 * 3600000)) [0..<nat ((3024000000 - 0) div (7 * 24 * 3600000)) + 1]"
      using generateTimeMarkers_instants[OF le, of 3024000000 differenceInDays_fixedOffset 7200]
      unfolding exampleRange_def TimeRange.simps d by auto
    then show ?thesis by (simp add: upt_rec)
  qed
  show ?thesis using le[of 7200000] a b c e by simp
qed

text \<open>
  C10. The loop that generates the markers comes to an end for every range, in every
  time zone, and returns a finite list, whose length is given: the interval is 1, 6, 24
  or 168 hours, a positive number of milliseconds, so every round moves the current
  instant forward until it passes the end.
\<close>

theorem generateTimeMarkers_terminates:
  "(\<exists>ms. generateTimeMarkers differenceInDays w r = Some ms
         \<and> length ms =
             (if range_start r \<le> range_end r
              then nat ((range_end r - range_start r)
                        div (intervalHours (daysInRange differenceInDays r) * 3600000)) + 1
              else 0))
   \<and> intervalHours (daysInRange differenceInDays r) \<in> {1, 6, 24, 168}
   \<and> 0 < intervalHours (daysInRange differenceInDays r) * 60 * 60 * 1000"
  using intervalHours_cases[of "daysInRange differenceInDays r"]
    intervalHours_pos[of "daysInRange differenceInDays r"]
  unfolding generateTimeMarkers_closed by simp

text \<open>
  In a time zone with a fixed offset, a range of seven days has 25 markers, six hours
  apart; a range that ends before it starts has none.
\<close>

theorem generateTimeMarkers_terminates_witness:
  "map_option length
     (generateTimeMarkers differenceInDays_fixedOffset 1400 (exampleRange 0 (6 * 86400000 + 5)))
     = Some 25
   \<and> map_option length (generateTimeMarkers differenceInDays_fixedOffset 800 (exampleRange 5 0))
     = Some 0"
proof -
  have d: "daysInRange differenceInDays_fixedOffset (exampleRange 0 (6 * 86400000 + 5)) = 7"
    by (simp add: daysInRange_def differenceInDays_fixedOffset_def exampleRange_def)
  have a: "map_option length
     (generateTimeMarkers differenceInDays_fixedOffset 1400 (exampleRange 0 (6 * 86400000 + 5)))
     = Some 25"
    using generateTimeMarkers_terminates
      [of differenceInDays_fixedOffset 1400 "exampleRange 0 (6 * 86400000 + 5)"]
    unfolding d by (auto simp: intervalHours_def exampleRange_def)
  have b: "map_option length (generateTimeMarkers differenceInDays_fixedOffset 800 (exampleRange 5 0))
     = Some 0"
    using generateTimeMarkers_terminates[of differenceInDays_fixedOffset 800 "exampleRange 5 0"]
    by (auto simp: exampleRange_def)
  show ?thesis using a b by simp
qed

subsection \<open>Pagination\<close>

lemma ceiling_25: "\<lceil>rat_of_int n / rat_of_int 25\<rceil> = (n + 24) div 25"
proof -
  have "\<lceil>rat_of_int n / rat_of_int 25\<rceil> = - (- n div 25)"
    by (rule ceiling_divide_eq_div)
  also have "\<dots> = (n + 24) div 25"
    by linarith
  finally show ?thesis .
qed

lemma totalPages_div: "totalPages xs = (int (length xs) + 24) div 25"
  unfolding totalPages_def itemsPerPage_def by (rule ceiling_25)

lemma totalPages_pos: "xs \<noteq> [] \<Longrightarrow> 1 \<le> totalPages xs"
proof -
  assume "xs \<noteq> []"
  then have "1 \<le> int (length xs)" by (cases xs) simp_all
  then show ?thesis unfolding totalPages_div by linarith
qed

text \<open>
  C5, as the claim states it, fails for the empty list: the number of pages of no scrobbles
  is 0, not 1.
\<close>

theorem totalPages_empty_counterexample:
  "length ([] :: Scrobble list) = 0 \<and> totalPages [] = 0 \<and> totalPages [] \<noteq> 1"
  by (simp add: totalPages_def)

text \<open>
  C5, amended. For every list of n scrobbles the number of pages is the ceiling of n / 25,
  the least number of pages of 25 that hold n items; it is max(1, ceil(n / 25)) when
  n > 0 and 0 when n = 0.
\<close>

theorem totalPages_ceiling:
  "totalPages xs = (if xs = [] then 0 else max 1 \<lceil>rat_of_int (int (length xs)) / 25\<rceil>)
   \<and> int (length xs) \<le> 25 * totalPages xs
   \<and> 25 * (totalPages xs - 1) < int (length xs)"
proof -
  have c: "totalPages xs = \<lceil>rat_of_int (int (length xs)) / 25\<rceil>"
    by (simp add: totalPages_def itemsPerPage_def)
  have e: "xs = [] \<Longrightarrow> totalPages xs = 0"
    by (simp add: totalPages_def)
  have m: "xs \<noteq> [] \<Longrightarrow> totalPages xs = max 1 (totalPages xs)"
    using totalPages_pos[of xs] by simp
  have b1: "int (length xs) \<le> 25 * totalPages xs"
    unfolding totalPages_div by presburger
  have b2: "25 * (totalPages xs - 1) < int (length xs)"
    unfolding totalPages_div by presburger
  show ?thesis
    using e m b1 b2 c by (cases "xs = []") simp_all
qed

text \<open>Sixty scrobbles make three pages.\<close>

theorem totalPages_ceiling_witness:
  "replicate 60 (exampleScrobble 1 0) \<noteq> [] \<and> totalPages (replicate 60 (exampleScrobble 1 0)) = 3"
proof -
  have "totalPages (replicate 60 (exampleScrobble 1 0)) = 3 \<or> totalPages (replicate 60 (exampleScrobble 1 0)) \<noteq> 3"
    by simp
  moreover have "60 \<le> 25 * totalPages (replicate 60 (exampleScrobble 1 0))
      \<and> 25 * (totalPages (replicate 60 (exampleScrobble 1 0)) - 1) < 60"
    using totalPages_ceiling[of "replicate 60 (exampleScrobble 1 0)"] by simp
  ultimately show ?thesis by auto
qed

subsection \<open>The fetched list\<close>

lemma set_insort_cmp: "set (insort_cmp cmp x ys) = insert x (set ys)"
  by (induction ys) auto

lemma length_insort_cmp: "length (insort_cmp cmp x ys) = Suc (length ys)"
  by (induction ys) auto

lemma set_array_sort: "set (array_sort cmp xs) = set xs"
  by (induction xs) (simp_all add: array_sort_def set_insort_cmp)

lemma length_array_sort: "length (array_sort cmp xs) = length xs"
  by (induction xs) (simp_all add: array_sort_def length_insort_cmp)

lemma sorted_insort_cmp:
  fixes f :: "'a \<Rightarrow> int"
  assumes "sorted_wrt (\<lambda>a b. f b \<le> f a) ys"
  shows "sorted_wrt (\<lambda>a b. f b \<le> f a) (insort_cmp (\<lambda>a b. f b - f a) x ys)"
  using assms
proof (induction ys)
  case Nil
  then show ?case by simp
next
  case (Cons y ys)
  show ?case
  proof (cases "f y \<le> f x")
    case True
    then show ?thesis using Cons.prems by auto
  next
    case False
    then show ?thesis using Cons by (auto simp: set_insort_cmp)
  qed
qed

lemma sorted_array_sort:
  fixes f :: "'a \<Rightarrow> int"
  shows "sorted_wrt (\<lambda>a b. f b \<le> f a) (array_sort (\<lambda>a b. f b - f a) xs)"
  by (induction xs) (simp_all add: array_sort_def sorted_insort_cmp)

lemma findIndex_bounds: "- 1 \<le> findIndex p xs \<and> findIndex p xs < int (length xs)"
  by (induction xs) (auto simp: Let_def)

lemma findIndex_append_later:
  "(\<forall>y \<in> set pre. \<not> p y) \<Longrightarrow> p x \<Longrightarrow> findIndex p (pre @ x # xs) = int (length pre)"
  by (induction pre) (auto simp: Let_def)

lemma findIndex_append_earlier:
  "\<exists>y \<in> set pre. p y \<Longrightarrow> findIndex p (pre @ ys) = findIndex p pre"
proof (induction pre)
  case Nil
  then show ?case by simp
next
  case (Cons a pre)
  show ?case
  proof (cases "p a")
    case True
    then show ?thesis by simp
  next
    case False
    with Cons.prems have "\<exists>y \<in> set pre. p y" by simp
    then show ?thesis using Cons.IH False by simp
  qed
qed

lemma findIndex_is_position:
  assumes "p x"
  shows "findIndex p (pre @ x # xs) = int (length pre) \<longleftrightarrow> (\<forall>y \<in> set pre. \<not> p y)"
proof (cases "\<exists>y \<in> set pre. p y")
  case True
  then have "findIndex p (pre @ x # xs) = findIndex p pre"
    by (rule findIndex_append_earlier)
  moreover have "findIndex p pre < int (length pre)"
    using findIndex_bounds[of p pre] by simp
  ultimately show ?thesis using True by auto
next
  case False
  then show ?thesis using findIndex_append_later[of pre p x xs] assms by auto
qed

lemma array_filter_first_ids:
  fixes keep :: "Scrobble \<Rightarrow> int \<Rightarrow> Scrobble list \<Rightarrow> bool"
  defines "keep \<equiv> \<lambda>scrobble index self.
             index = findIndex (\<lambda>s. scrobble_id s = scrobble_id scrobble) self"
  shows "distinct (map scrobble_id (array_filter keep (int (length pre)) (pre @ xs) xs))
       \<and> scrobble_id ` set (array_filter keep (int (length pre)) (pre @ xs) xs)
           = scrobble_id ` set xs - scrobble_id ` set pre
       \<and> set (array_filter keep (int (length pre)) (pre @ xs) xs) \<subseteq> set xs"
proof (induction xs arbitrary: pre)
  case Nil
  then show ?case by simp
next
  case (Cons x xs)
  let ?R = "array_filter keep (int (length (pre @ [x]))) ((pre @ [x]) @ xs) xs"
  have ih: "distinct (map scrobble_id ?R)"
    "scrobble_id ` set ?R = scrobble_id ` set xs - scrobble_id ` set (pre @ [x])"
    "set ?R \<subseteq> set xs"
    using Cons.IH[of "pre @ [x]"] by blast+
  have k: "keep x (int (length pre)) (pre @ x # xs) \<longleftrightarrow> scrobble_id x \<notin> scrobble_id ` set pre"
  proof -
    have "(\<forall>y \<in> set pre. \<not> scrobble_id y = scrobble_id x) \<longleftrightarrow>
        scrobble_id x \<notin> scrobble_id ` set pre"
      unfolding image_iff by metis
    then show ?thesis
      unfolding keep_def
      using findIndex_is_position[of "\<lambda>s. scrobble_id s = scrobble_id x" x pre xs]
      by (simp add: eq_commute)
  qed
  have step: "array_filter keep (int (length pre)) (pre @ x # xs) (x # xs) =
      (if scrobble_id x \<notin> scrobble_id ` set pre then x # ?R else ?R)"
    using k by (simp add: add.commute)
  show ?case
  proof (cases "scrobble_id x \<in> scrobble_id ` set pre")
    case True
    then show ?thesis unfolding step using ih by auto
  next
    case False
    have "scrobble_id x \<notin> scrobble_id ` set ?R" using ih(2) by auto
    then show ?thesis unfolding step using ih False by auto
  qed
qed

lemma array_filter_sorted:
  assumes "sorted_wrt P xs"
  shows "sorted_wrt P (array_filter f i self xs) \<and> set (array_filter f i self xs) \<subseteq> set xs"
  using assms by (induction xs arbitrary: i) auto

lemma uniqueScrobbles_props:
  "distinct (map scrobble_id (uniqueScrobbles xs))"
  "scrobble_id ` set (uniqueScrobbles xs) = scrobble_id ` set xs"
  "set (uniqueScrobbles xs) \<subseteq> set xs"
  "sorted_wrt P xs \<Longrightarrow> sorted_wrt P (uniqueScrobbles xs)"
  using array_filter_first_ids[of "[]" xs] array_filter_sorted[of P xs]
  by (simp_all add: uniqueScrobbles_def)

lemma sortedScrobbles_props:
  "sorted_wrt (\<lambda>a b. listened_at b \<le> listened_at a) (sortedScrobbles xs)"
  "set (sortedScrobbles xs) = set xs"
  "length (sortedScrobbles xs) = length xs"
  by (simp_all add: sortedScrobbles_def sorted_array_sort set_array_sort length_array_sort)

lemma fetchScrobbles_try_ok:
  "fetchScrobbles_try u \<lparr>fetchResponse = Inr (), userResponse = Inr (Some uid), response = Inr d\<rparr>
     = Inr (uniqueScrobbles (sortedScrobbles d))"
  by (simp add: fetchScrobbles_try_def)

lemma settle_ok:
  "fetchScrobbles_try u replies = Inr xs \<Longrightarrow>
     fetchScrobbles_settle u replies h = h\<lparr>scrobbles := xs, loading := False\<rparr>"
  by (simp add: fetchScrobbles_settle_def setLoading_def setScrobbles_def)

lemma settle_failed:
  "fetchScrobbles_try u replies = Inl err \<Longrightarrow>
     fetchScrobbles_settle u replies h = h\<lparr>error := Some (message err), loading := False\<rparr>"
  by (simp add: fetchScrobbles_settle_def setLoading_def setError_def)

text \<open>
  C7. For every list of scrobbles a fetch answers with, the list stored for display
  holds no two entries with the same id and is sorted by listening time, newest first,
  whatever the order and the duplicates of the answer; it holds scrobbles of the answer
  only, and one for every id of the answer.
\<close>

theorem stored_scrobbles_unique_sorted:
  "scrobbles (fetchScrobbles_settle u
       \<lparr>fetchResponse = Inr (), userResponse = Inr (Some uid), response = Inr d\<rparr> h)
     = uniqueScrobbles (sortedScrobbles d)
   \<and> distinct (map scrobble_id (uniqueScrobbles (sortedScrobbles d)))
   \<and> sorted_wrt (\<lambda>a b. listened_at b \<le> listened_at a) (uniqueScrobbles (sortedScrobbles d))
   \<and> scrobble_id ` set (uniqueScrobbles (sortedScrobbles d)) = scrobble_id ` set d
   \<and> set (uniqueScrobbles (sortedScrobbles d)) \<subseteq> set d"
proof -
  have st: "scrobbles (fetchScrobbles_settle u
       \<lparr>fetchResponse = Inr (), userResponse = Inr (Some uid), response = Inr d\<rparr> h)
     = uniqueScrobbles (sortedScrobbles d)"
    by (simp add: settle_ok[OF fetchScrobbles_try_ok])
  have di: "distinct (map scrobble_id (uniqueScrobbles (sortedScrobbles d)))"
    by (rule uniqueScrobbles_props(1))
  have so: "sorted_wrt (\<lambda>a b. listened_at b \<le> listened_at a) (uniqueScrobbles (sortedScrobbles d))"
    by (rule uniqueScrobbles_props(4)) (rule sortedScrobbles_props(1))
  have ids: "scrobble_id ` set (uniqueScrobbles (sortedScrobbles d)) = scrobble_id ` set d"
    by (simp add: uniqueScrobbles_props(2) sortedScrobbles_props(2))
  have sub: "set (uniqueScrobbles (sortedScrobbles d)) \<subseteq> set d"
    using uniqueScrobbles_props(3)[of "sortedScrobbles d"] by (simp add: sortedScrobbles_props(2))
  show ?thesis using st di so ids sub by blast
qed

text \<open>An answer out of order, with the ids 1 and 2 twice.\<close>

theorem stored_scrobbles_unique_sorted_witness:
  "map (\<lambda>s. (scrobble_id s, listened_at s))
     (scrobbles (fetchScrobbles_settle ''bob''
        \<lparr>fetchResponse = Inr (), userResponse = Inr (Some 7),
         response = Inr [exampleScrobble 1 5, exampleScrobble 2 9, exampleScrobble 1 5,
                         exampleScrobble 3 9, exampleScrobble 2 1]\<rparr>
        (hook (mount ''bob'' (exampleRange 0 10)))))
   = [(2, 9), (3, 9), (1, 5)]"
proof -
  have "map (\<lambda>s. (scrobble_id s, listened_at s))
     (uniqueScrobbles (sortedScrobbles
        [exampleScrobble 1 5, exampleScrobble 2 9, exampleScrobble 1 5, exampleScrobble 3 9,
         exampleScrobble 2 1]))
   = [(2, 9), (3, 9), (1, 5)]"
    by (simp add: uniqueScrobbles_def sortedScrobbles_def array_sort_def exampleScrobble_def Let_def)
  then show ?thesis
    using stored_scrobbles_unique_sorted[of "''bob''" 7
        "[exampleScrobble 1 5, exampleScrobble 2 9, exampleScrobble 1 5, exampleScrobble 3 9,
          exampleScrobble 2 1]" "hook (mount ''bob'' (exampleRange 0 10))"]
    by simp
qed

subsection \<open>The view over time\<close>

lemmas world_simps = mount_def startFetch_def fetchScrobbles_begin_def fetchScrobbles_settle_def
  fetchScrobbles_try_def setTimeRange_def setLoading_def setError_def setScrobbles_def
  setSelectedScrobble_def setHoveredScrobble_def okReplies_def run_def step_def render_def
  timelineShown_def message_def

lemma single_sorted:
  "uniqueScrobbles (sortedScrobbles [x]) = [x]"
  by (simp add: uniqueScrobbles_def sortedScrobbles_def array_sort_def)

lemma length_stored:
  assumes "distinct (map scrobble_id xs)"
  shows "length (uniqueScrobbles (sortedScrobbles xs)) = length xs"
proof -
  let ?R = "uniqueScrobbles (sortedScrobbles xs)"
  have "length ?R = length (map scrobble_id ?R)" by simp
  also have "\<dots> = card (set (map scrobble_id ?R))"
    using uniqueScrobbles_props(1)[of "sortedScrobbles xs"] by (simp only: distinct_card)
  also have "set (map scrobble_id ?R) = set (map scrobble_id xs)"
    by (simp add: uniqueScrobbles_props(2) sortedScrobbles_props(2))
  also have "card (set (map scrobble_id xs)) = length (map scrobble_id xs)"
    using assms by (rule distinct_card)
  finally show ?thesis by simp
qed

lemma exampleScrobbles_ids: "map scrobble_id (exampleScrobbles n) = map int [0..<n]"
  by (simp add: exampleScrobbles_def exampleScrobble_def comp_def)

lemma length_stored_example [simp]:
  "length (uniqueScrobbles (sortedScrobbles (exampleScrobbles n))) = n"
proof -
  have "distinct (map scrobble_id (exampleScrobbles n))"
    unfolding exampleScrobbles_ids by (simp add: distinct_map)
  then show ?thesis by (simp add: length_stored exampleScrobbles_def)
qed

lemma stored_example_empty [simp]:
  "uniqueScrobbles (sortedScrobbles (exampleScrobbles n)) = [] \<longleftrightarrow> n = 0"
  using length_stored_example[of n] by (metis length_0_conv)

lemma totalPages_stored_example [simp]:
  "totalPages (uniqueScrobbles (sortedScrobbles (exampleScrobbles n))) = (int n + 24) div 25"
  by (simp add: totalPages_div)

lemma hook_render [simp]: "hook (render w) = hook w"
  by (simp add: render_def split: option.splits)

lemma inflight_render [simp]: "inflight (render w) = inflight w"
  by (simp add: render_def split: option.splits)

lemma username_render [simp]: "username (render w) = username w"
  by (simp add: render_def split: option.splits)

text \<open>
  C4: the code breaks the claim. The hook is mounted with the range from 0 to 1000, which
  starts a first fetch; the range is changed to 2000 to 3000, which starts a second one.
  When the answer of the first fetch arrives, its scrobble of time 500 becomes the
  displayed list of the range from 2000 to 3000 and loading ends, while the fetch for
  that range is still outstanding; and when the second fetch answers first and the first
  one after it, the answer of the first fetch is what stays displayed. The hook describes
  its own result otherwise: \<open>scrobbles\<close> is the array of scrobbles within the selected
  time range, and \<open>loading\<close> indicates if scrobbles are currently being fetched.
\<close>

theorem stale_response_displayed:
  "inflight (run (mount ''bob'' (exampleRange 0 1000)) [RangeChange (exampleRange 2000 3000)])
     = [exampleRange 0 1000, exampleRange 2000 3000]
   \<and> timeRange (hook (run (mount ''bob'' (exampleRange 0 1000))
         [RangeChange (exampleRange 2000 3000),
          Replies 0 (okReplies [exampleScrobble 1 500])])) = exampleRange 2000 3000
   \<and> scrobbles (hook (run (mount ''bob'' (exampleRange 0 1000))
         [RangeChange (exampleRange 2000 3000),
          Replies 0 (okReplies [exampleScrobble 1 500])])) = [exampleScrobble 1 500]
   \<and> listened_at (exampleScrobble 1 500) < range_start (exampleRange 2000 3000)
   \<and> loading (hook (run (mount ''bob'' (exampleRange 0 1000))
         [RangeChange (exampleRange 2000 3000),
          Replies 0 (okReplies [exampleScrobble 1 500])])) = False
   \<and> inflight (run (mount ''bob'' (exampleRange 0 1000))
         [RangeChange (exampleRange 2000 3000),
          Replies 0 (okReplies [exampleScrobble 1 500])]) = [exampleRange 2000 3000]
   \<and> scrobbles (hook (run (mount ''bob'' (exampleRange 0 1000))
         [RangeChange (exampleRange 2000 3000),
          Replies 1 (okReplies [exampleScrobble 2 2500])])) = [exampleScrobble 2 2500]
   \<and> scrobbles (hook (run (mount ''bob'' (exampleRange 0 1000))
         [RangeChange (exampleRange 2000 3000),
          Replies 1 (okReplies [exampleScrobble 2 2500]),
          Replies 0 (okReplies [exampleScrobble 1 500])])) = [exampleScrobble 1 500]
   \<and> timeRange (hook (run (mount ''bob'' (exampleRange 0 1000))
         [RangeChange (exampleRange 2000 3000),
          Replies 1 (okReplies [exampleScrobble 2 2500]),
          Replies 0 (okReplies [exampleScrobble 1 500])])) = exampleRange 2000 3000"
  by (simp add: world_simps single_sorted exampleScrobble_def exampleRange_def)

subsection \<open>Navigation between pages\<close>

text \<open>
  C6, as the claim states it, fails in two ways. With 60 scrobbles (3 pages) shown on
  page 1, the value 100 in the page input is not clamped by \<open>onChange\<close> but rejected: the
  page stays 1. And the page is not clamped when the list shrinks while the timeline is
  shown: two fetches are outstanding, the first answers with 60 scrobbles, the user goes
  to the last page, 3, the second fetch answers with 10 scrobbles (1 page), and
  previous moves to page 2, outside [1, 1].
\<close>

theorem navigation_counterexample:
  "currentPage (run (mount ''bob'' (exampleRange 0 1000))
       [Replies 0 (okReplies (exampleScrobbles 60))]) = Some 1
   \<and> totalPages (scrobbles (hook (run (mount ''bob'' (exampleRange 0 1000))
       [Replies 0 (okReplies (exampleScrobbles 60)),
        Navigate (Change (Some 100))]))) = 3
   \<and> currentPage (run (mount ''bob'' (exampleRange 0 1000))
       [Replies 0 (okReplies (exampleScrobbles 60)),
        Navigate (Change (Some 100))]) = Some 1
   \<and> currentPage (run (mount ''bob'' (exampleRange 0 1000))
       [RangeChange (exampleRange 2000 3000),
        Replies 0 (okReplies (exampleScrobbles 60)),
        Navigate Last]) = Some 3
   \<and> totalPages (scrobbles (hook (run (mount ''bob'' (exampleRange 0 1000))
       [RangeChange (exampleRange 2000 3000),
        Replies 0 (okReplies (exampleScrobbles 60)),
        Navigate Last,
        Replies 0 (okReplies (exampleScrobbles 10)),
        Navigate Previous]))) = 1
   \<and> currentPage (run (mount ''bob'' (exampleRange 0 1000))
       [RangeChange (exampleRange 2000 3000),
        Replies 0 (okReplies (exampleScrobbles 60)),
        Navigate Last,
        Replies 0 (okReplies (exampleScrobbles 10)),
        Navigate Previous]) = Some 2"
  by (simp add: world_simps goToLastPage_def goToPreviousPage_def onChange_def goToPage_def)


text \<open>
  C6, amended. While the timeline is shown (the list is not empty): first and last set
  the current page inside [1, totalPages]; next never exceeds totalPages and previous
  never goes below 1, so from a current page inside [1, totalPages] every operation
  stays inside. The current page is not clamped when the list changes, and previous
  ends inside the interval only from a page of at most totalPages + 1. \<open>goToPage\<close> is
  called by the page input only: \<open>onChange\<close> goes to a value inside [1, totalPages] and
  rejects any other value, leaving the current page as it is; \<open>onBlur\<close> moves a value
  below 1 (or no number) to page 1 and a value above totalPages to the last page.
\<close>

theorem navigation_in_range:
  assumes "xs \<noteq> []"
  shows "(1 \<le> goToFirstPage xs cur \<and> goToFirstPage xs cur \<le> totalPages xs)
    \<and> (1 \<le> goToLastPage xs cur \<and> goToLastPage xs cur \<le> totalPages xs)
    \<and> goToNextPage xs cur \<le> totalPages xs
    \<and> (1 \<le> goToNextPage xs cur \<longleftrightarrow> 0 \<le> cur)
    \<and> 1 \<le> goToPreviousPage xs cur
    \<and> (goToPreviousPage xs cur \<le> totalPages xs \<longleftrightarrow> cur \<le> totalPages xs + 1)
    \<and> onChange v xs cur =
         (case v of None \<Rightarrow> cur
          | Some n \<Rightarrow> if 1 \<le> n \<and> n \<le> totalPages xs then n else cur)
    \<and> onBlur v xs cur =
         (case v of None \<Rightarrow> 1
          | Some n \<Rightarrow> if n < 1 then 1 else if totalPages xs < n then totalPages xs else cur)
    \<and> (1 \<le> cur \<and> cur \<le> totalPages xs \<longrightarrow>
         (1 \<le> goToNextPage xs cur \<and> goToNextPage xs cur \<le> totalPages xs)
         \<and> (1 \<le> goToPreviousPage xs cur \<and> goToPreviousPage xs cur \<le> totalPages xs)
         \<and> (1 \<le> onChange v xs cur \<and> onChange v xs cur \<le> totalPages xs)
         \<and> (1 \<le> onBlur v xs cur \<and> onBlur v xs cur \<le> totalPages xs))"
  using totalPages_pos[OF assms]
  by (auto simp: goToFirstPage_def goToPreviousPage_def goToNextPage_def goToLastPage_def
      goToPage_def onChange_def onBlur_def split: option.splits)

text \<open>Sixty scrobbles (3 pages) on page 3, and ten scrobbles (1 page) on page 3.\<close>

theorem navigation_in_range_witness:
  "exampleScrobbles 60 \<noteq> [] \<and> exampleScrobbles 10 \<noteq> []
   \<and> totalPages (exampleScrobbles 60) = 3 \<and> totalPages (exampleScrobbles 10) = 1
   \<and> goToNextPage (exampleScrobbles 60) 3 = 3
   \<and> goToPreviousPage (exampleScrobbles 60) 3 = 2
   \<and> onChange (Some 100) (exampleScrobbles 60) 3 = 3
   \<and> onChange (Some 2) (exampleScrobbles 60) 3 = 2
   \<and> onBlur (Some 100) (exampleScrobbles 60) 1 = 3
   \<and> onBlur (Some (- 2)) (exampleScrobbles 60) 3 = 1
   \<and> goToPreviousPage (exampleScrobbles 10) 3 = 2
   \<and> \<not> goToPreviousPage (exampleScrobbles 10) 3 \<le> totalPages (exampleScrobbles 10)"
proof -
  have ne: "exampleScrobbles 60 \<noteq> []" "exampleScrobbles 10 \<noteq> []"
    by (simp_all add: exampleScrobbles_def)
  have tp: "totalPages (exampleScrobbles 60) = 3" "totalPages (exampleScrobbles 10) = 1"
    by (simp_all add: totalPages_div exampleScrobbles_def)
  have nx: "goToNextPage (exampleScrobbles 60) 3 = 3"
    using navigation_in_range[OF ne(1), of 3 None] by (simp add: tp goToNextPage_def)
  have pv: "goToPreviousPage (exampleScrobbles 60) 3 = 2"
    using navigation_in_range[OF ne(1), of 3 None] by (simp add: tp goToPreviousPage_def)
  have c1: "onChange (Some 100) (exampleScrobbles 60) 3 = 3"
    using navigation_in_range[OF ne(1), of 3 "Some 100"] by (simp add: tp)
  have c2: "onChange (Some 2) (exampleScrobbles 60) 3 = 2"
    using navigation_in_range[OF ne(1), of 3 "Some 2"] by (simp add: tp)
  have b1: "onBlur (Some 100) (exampleScrobbles 60) 1 = 3"
    using navigation_in_range[OF ne(1), of 1 "Some 100"] by (simp add: tp)
  have b2: "onBlur (Some (- 2)) (exampleScrobbles 60) 3 = 1"
    using navigation_in_range[OF ne(1), of 3 "Some (- 2)"] by simp
  have p2: "\<not> goToPreviousPage (exampleScrobbles 10) 3 \<le> totalPages (exampleScrobbles 10)"
    using navigation_in_range[OF ne(2), of 3 None] by (simp add: tp)
  have p3: "goToPreviousPage (exampleScrobbles 10) 3 = 2"
    by (simp add: goToPreviousPage_def)
  show ?thesis using ne tp nx pv c1 c2 b1 b2 p2 p3 by simp
qed

subsection \<open>A fetch that fails\<close>

text \<open>
  C9, as the claim states it, fails for the page. 26 scrobbles are shown and the user is
  on page 2. The range is changed and the fetch fails: the scrobbles are as before, but
  the timeline is not rendered and its page is gone; after the next fetch that answers,
  the timeline is on page 1.
\<close>

theorem failed_fetch_page_counterexample:
  "currentPage (run (mount ''bob'' (exampleRange 0 1000))
       [Replies 0 (okReplies (exampleScrobbles 26)), Navigate Next]) = Some 2
   \<and> currentPage (run (mount ''bob'' (exampleRange 0 1000))
       [Replies 0 (okReplies (exampleScrobbles 26)), Navigate Next,
        RangeChange (exampleRange 2000 3000), Replies 0 failReplies]) = None
   \<and> error (hook (run (mount ''bob'' (exampleRange 0 1000))
       [Replies 0 (okReplies (exampleScrobbles 26)), Navigate Next,
        RangeChange (exampleRange 2000 3000), Replies 0 failReplies]))
       = Some ''User bob not found''
   \<and> scrobbles (hook (run (mount ''bob'' (exampleRange 0 1000))
       [Replies 0 (okReplies (exampleScrobbles 26)), Navigate Next,
        RangeChange (exampleRange 2000 3000), Replies 0 failReplies]))
       = scrobbles (hook (run (mount ''bob'' (exampleRange 0 1000))
           [Replies 0 (okReplies (exampleScrobbles 26)), Navigate Next]))
   \<and> currentPage (run (mount ''bob'' (exampleRange 0 1000))
       [Replies 0 (okReplies (exampleScrobbles 26)), Navigate Next,
        RangeChange (exampleRange 2000 3000), Replies 0 failReplies,
        RangeChange (exampleRange 0 1000), Replies 0 (okReplies (exampleScrobbles 26))])
       = Some 1"
  by (simp add: world_simps failReplies_def goToNextPage_def)

text \<open>
  C9, amended. When a fetch fails, the message of the failure becomes the error and
  loading ends; the failing path changes nothing else in the hook: the list of
  scrobbles, the time range and the selected and the hovered scrobble are as before, for
  the failing path alone and for the whole fetch from its start. The page is not kept:
  the timeline is rendered only while nothing is loading and no error is set, so the
  start of a fetch and a failure with a message both leave the timeline unrendered and
  its page discarded, and a timeline that was not rendered starts on page 1.
\<close>

theorem fetch_failure_frame:
  assumes "fetchScrobbles_try u replies = Inl err"
  shows "fetchScrobbles_settle u replies h = h\<lparr>error := Some (message err), loading := False\<rparr>
     \<and> error (fetchScrobbles_settle u replies h) = Some (message err)
     \<and> loading (fetchScrobbles_settle u replies h) = False
     \<and> scrobbles (fetchScrobbles_settle u replies h) = scrobbles h
     \<and> timeRange (fetchScrobbles_settle u replies h) = timeRange h
     \<and> selectedScrobble (fetchScrobbles_settle u replies h) = selectedScrobble h
     \<and> hoveredScrobble (fetchScrobbles_settle u replies h) = hoveredScrobble h
     \<and> fetchScrobbles_settle u replies (fetchScrobbles_begin u h)
         = h\<lparr>error := Some (message err), loading := False\<rparr>
     \<and> (username w = u \<and> i < length (inflight w) \<longrightarrow>
          hook (step w (Replies i replies))
            = (hook w)\<lparr>error := Some (message err), loading := False\<rparr>)
     \<and> (username w = u \<and> i < length (inflight w) \<and> message err \<noteq> [] \<longrightarrow>
          currentPage (step w (Replies i replies)) = None)
     \<and> (username w \<noteq> [] \<longrightarrow> currentPage (step w (RangeChange r)) = None)
     \<and> (currentPage w = None \<longrightarrow>
          currentPage (step w e) = None \<or> currentPage (step w e) = Some 1)"
proof -
  have b: "fetchScrobbles_begin u h = h \<or> fetchScrobbles_begin u h = h\<lparr>loading := True, error := None\<rparr>"
    by (simp add: fetchScrobbles_begin_def setError_def setLoading_def)
  have s: "fetchScrobbles_settle u replies k = k\<lparr>error := Some (message err), loading := False\<rparr>" for k
    by (rule settle_failed[OF assms])
  have whole: "fetchScrobbles_settle u replies (fetchScrobbles_begin u h)
         = h\<lparr>error := Some (message err), loading := False\<rparr>"
    using b unfolding s by auto
  have hk: "username w = u \<and> i < length (inflight w) \<longrightarrow>
          hook (step w (Replies i replies))
            = (hook w)\<lparr>error := Some (message err), loading := False\<rparr>"
    by (simp add: step_def s)
  have pg: "username w = u \<and> i < length (inflight w) \<and> message err \<noteq> [] \<longrightarrow>
          currentPage (step w (Replies i replies)) = None"
    by (simp add: step_def s render_def timelineShown_def)
  have st: "username w \<noteq> [] \<longrightarrow> currentPage (step w (RangeChange r)) = None"
    by (simp add: step_def render_def timelineShown_def startFetch_def fetchScrobbles_begin_def
        setError_def setLoading_def setTimeRange_def)
  have re: "currentPage w = None \<longrightarrow>
          currentPage (step w e) = None \<or> currentPage (step w e) = Some 1"
    by (cases e)
      (auto simp: step_def render_def startFetch_def split: option.splits if_splits)
  have fr: "fetchScrobbles_settle u replies h = h\<lparr>error := Some (message err), loading := False\<rparr>
     \<and> error (fetchScrobbles_settle u replies h) = Some (message err)
     \<and> loading (fetchScrobbles_settle u replies h) = False
     \<and> scrobbles (fetchScrobbles_settle u replies h) = scrobbles h
     \<and> timeRange (fetchScrobbles_settle u replies h) = timeRange h
     \<and> selectedScrobble (fetchScrobbles_settle u replies h) = selectedScrobble h
     \<and> hoveredScrobble (fetchScrobbles_settle u replies h) = hoveredScrobble h"
    unfolding s by simp
  show ?thesis
    using fr whole hk pg st re by blast
qed


text \<open>
  The user lookup answers without data, first for a hook on its own, then for the view
  with 26 scrobbles on page 2 after a change of the range.
\<close>

theorem fetch_failure_frame_witness:
  "fetchScrobbles_try ''bob'' failReplies = Inl (Error ''User bob not found'')
   \<and> fetchScrobbles_settle ''bob'' failReplies
        \<lparr>timeRange = exampleRange 0 10, loading = True, error = None,
         scrobbles = [exampleScrobble 1 5], selectedScrobble = Some (exampleScrobble 1 5),
         hoveredScrobble = None\<rparr>
     = \<lparr>timeRange = exampleRange 0 10, loading = False, error = Some ''User bob not found'',
        scrobbles = [exampleScrobble 1 5], selectedScrobble = Some (exampleScrobble 1 5),
        hoveredScrobble = None\<rparr>
   \<and> username (run (mount ''bob'' (exampleRange 0 1000))
        [Replies 0 (okReplies (exampleScrobbles 26)), Navigate Next,
         RangeChange (exampleRange 2000 3000)]) = ''bob''
   \<and> 0 < length (inflight (run (mount ''bob'' (exampleRange 0 1000))
        [Replies 0 (okReplies (exampleScrobbles 26)), Navigate Next,
         RangeChange (exampleRange 2000 3000)]))
   \<and> message (Error ''User bob not found'') \<noteq> []
   \<and> currentPage (step (run (mount ''bob'' (exampleRange 0 1000))
        [Replies 0 (okReplies (exampleScrobbles 26)), Navigate Next,
         RangeChange (exampleRange 2000 3000)]) (Replies 0 failReplies)) = None
   \<and> scrobbles (hook (step (run (mount ''bob'' (exampleRange 0 1000))
        [Replies 0 (okReplies (exampleScrobbles 26)), Navigate Next,
         RangeChange (exampleRange 2000 3000)]) (Replies 0 failReplies)))
       = uniqueScrobbles (sortedScrobbles (exampleScrobbles 26))"
proof -
  define w where "w = run (mount ''bob'' (exampleRange 0 1000))
        [Replies 0 (okReplies (exampleScrobbles 26)), Navigate Next,
         RangeChange (exampleRange 2000 3000)]"
  have t: "fetchScrobbles_try ''bob'' failReplies = Inl (Error ''User bob not found'')"
    by (simp add: fetchScrobbles_try_def failReplies_def)
  have u: "username w = ''bob''" and i: "0 < length (inflight w)"
    and sc: "scrobbles (hook w) = uniqueScrobbles (sortedScrobbles (exampleScrobbles 26))"
    by (simp_all add: w_def world_simps goToNextPage_def)
  have m: "message (Error ''User bob not found'') \<noteq> []"
    by (simp add: message_def)
  note th = fetch_failure_frame[OF t, of _ w 0]
  have a: "fetchScrobbles_settle ''bob'' failReplies
        \<lparr>timeRange = exampleRange 0 10, loading = True, error = None,
         scrobbles = [exampleScrobble 1 5], selectedScrobble = Some (exampleScrobble 1 5),
         hoveredScrobble = None\<rparr>
     = \<lparr>timeRange = exampleRange 0 10, loading = False, error = Some ''User bob not found'',
        scrobbles = [exampleScrobble 1 5], selectedScrobble = Some (exampleScrobble 1 5),
        hoveredScrobble = None\<rparr>"
    using th[of "\<lparr>timeRange = exampleRange 0 10, loading = True, error = None,
         scrobbles = [exampleScrobble 1 5], selectedScrobble = Some (exampleScrobble 1 5),
         hoveredScrobble = None\<rparr>"]
    by (simp add: message_def)
  have b: "currentPage (step w (Replies 0 failReplies)) = None"
    using th u i m by blast
  have "hook (step w (Replies 0 failReplies))
      = (hook w)\<lparr>error := Some (message (Error ''User bob not found'')), loading := False\<rparr>"
    using th u i by blast
  then have c: "scrobbles (hook (step w (Replies 0 failReplies)))
      = uniqueScrobbles (sortedScrobbles (exampleScrobbles 26))"
    by (simp add: sc)
  show ?thesis
    unfolding w_def[symmetric] using t a u i m b c by simp
qed

subsection \<open>Selection\<close>

lemma find_positioned_absent:
  "scrobble_id s \<notin> scrobble_id ` set xs \<Longrightarrow>
     find (\<lambda>p. scrobble_id p = scrobble_id s) (positionScrobbles w xs r) = None"
  unfolding positionScrobbles_map by (induction xs) simp_all

lemma scrollToScrobble_absent:
  assumes "scrobble_id s \<notin> scrobble_id ` set xs"
  shows "scrollToScrobble el (positionScrobbles w xs r) s = None"
  using find_positioned_absent[OF assms]
  by (simp add: scrollToScrobble_def split: option.splits)

text \<open>
  C8, as the claim states it, fails. Scrobble 1 is fetched and selected; the range is
  changed and the new fetch answers with scrobble 2 only. The selection is still
  scrobble 1, which is not in the list.
\<close>

theorem stale_selection_counterexample:
  "scrobbles (hook (run (mount ''bob'' (exampleRange 0 1000))
       [Replies 0 (okReplies [exampleScrobble 1 500]),
        Select (Some (exampleScrobble 1 500)),
        RangeChange (exampleRange 2000 3000),
        Replies 0 (okReplies [exampleScrobble 2 2500])])) = [exampleScrobble 2 2500]
   \<and> scrobble_id (exampleScrobble 1 500) \<noteq> scrobble_id (exampleScrobble 2 2500)
   \<and> selectedScrobble (hook (run (mount ''bob'' (exampleRange 0 1000))
       [Replies 0 (okReplies [exampleScrobble 1 500]),
        Select (Some (exampleScrobble 1 500)),
        RangeChange (exampleRange 2000 3000),
        Replies 0 (okReplies [exampleScrobble 2 2500])])) = Some (exampleScrobble 1 500)
   \<and> selectedScrobble (hook (run (mount ''bob'' (exampleRange 0 1000))
       [Replies 0 (okReplies [exampleScrobble 1 500]),
        Select (Some (exampleScrobble 1 500)),
        RangeChange (exampleRange 2000 3000),
        Replies 0 (okReplies [exampleScrobble 2 2500])])) \<noteq> None"
  by (simp add: world_simps single_sorted exampleScrobble_def)

text \<open>
  C8, amended. The selection changes only when a scrobble (or null) is selected: a change
  of the range, the answer of a fetch, hovering and paging leave it as it is, also when the
  selected scrobble is not in the list. For a selected scrobble whose id is not in the
  list the timeline does not scroll; all functions are total, no error is raised.
\<close>

theorem stale_selection_kept:
  "selectedScrobble (hook (step w e)) =
     (case e of
        Select sel \<Rightarrow> sel
      | RangeChange _ \<Rightarrow> selectedScrobble (hook w)
      | Replies _ _ \<Rightarrow> selectedScrobble (hook w)
      | Hover _ \<Rightarrow> selectedScrobble (hook w)
      | Navigate _ \<Rightarrow> selectedScrobble (hook w))
   \<and> (scrobble_id s \<notin> scrobble_id ` set xs \<longrightarrow>
        scrollEffect el (positionScrobbles (calculateTimelineWidth differenceInDays xs r) xs r) (Some s) = None)"
proof -
  have a: "selectedScrobble (hook (step w e)) =
     (case e of
        Select sel \<Rightarrow> sel
      | RangeChange _ \<Rightarrow> selectedScrobble (hook w)
      | Replies _ _ \<Rightarrow> selectedScrobble (hook w)
      | Hover _ \<Rightarrow> selectedScrobble (hook w)
      | Navigate _ \<Rightarrow> selectedScrobble (hook w))"
    by (cases e)
      (simp_all add: step_def startFetch_def fetchScrobbles_begin_def fetchScrobbles_settle_def
        setTimeRange_def setLoading_def setError_def setScrobbles_def setSelectedScrobble_def
        setHoveredScrobble_def split: sum.splits option.splits)
  have b: "scrobble_id s \<notin> scrobble_id ` set xs \<longrightarrow>
        scrollEffect el (positionScrobbles (calculateTimelineWidth differenceInDays xs r) xs r) (Some s) = None"
    by (simp add: scrollEffect_def scrollToScrobble_absent)
  show ?thesis using a b by (rule conjI)
qed

text \<open>Scrobble 1 is selected while the list holds scrobble 2 only.\<close>

theorem stale_selection_kept_witness:
  "scrobble_id (exampleScrobble 1 500) \<notin> scrobble_id ` set [exampleScrobble 2 2500]
   \<and> selectedScrobble (hook (step (mount ''bob'' (exampleRange 2000 3000))
                                  (Select (Some (exampleScrobble 1 500)))))
       = Some (exampleScrobble 1 500)
   \<and> selectedScrobble (hook (step (step (mount ''bob'' (exampleRange 2000 3000))
                                        (Select (Some (exampleScrobble 1 500))))
                                  (Replies 0 (okReplies [exampleScrobble 2 2500]))))
       = Some (exampleScrobble 1 500)
   \<and> scrollEffect (Some 600)
        (positionScrobbles
           (calculateTimelineWidth differenceInDays_fixedOffset [exampleScrobble 2 2500] (exampleRange 2000 3000))
           [exampleScrobble 2 2500] (exampleRange 2000 3000))
        (Some (exampleScrobble 1 500)) = None"
proof -
  have n: "scrobble_id (exampleScrobble 1 500) \<notin> scrobble_id ` set [exampleScrobble 2 2500]"
    by (simp add: exampleScrobble_def)
  have a: "selectedScrobble (hook (step (mount ''bob'' (exampleRange 2000 3000))
                                  (Select (Some (exampleScrobble 1 500)))))
       = Some (exampleScrobble 1 500)"
    using stale_selection_kept[of "mount ''bob'' (exampleRange 2000 3000)"
        "Select (Some (exampleScrobble 1 500))"]
    by simp
  have b: "selectedScrobble (hook (step (step (mount ''bob'' (exampleRange 2000 3000))
                                        (Select (Some (exampleScrobble 1 500))))
                                  (Replies 0 (okReplies [exampleScrobble 2 2500]))))
       = Some (exampleScrobble 1 500)"
    using stale_selection_kept[of "step (mount ''bob'' (exampleRange 2000 3000))
        (Select (Some (exampleScrobble 1 500)))" "Replies 0 (okReplies [exampleScrobble 2 2500])"] a
    by simp
  have c: "scrollEffect (Some 600)
        (positionScrobbles
           (calculateTimelineWidth differenceInDays_fixedOffset [exampleScrobble 2 2500] (exampleRange 2000 3000))
           [exampleScrobble 2 2500] (exampleRange 2000 3000))
        (Some (exampleScrobble 1 500)) = None"
    using stale_selection_kept[of _ _ "exampleScrobble 1 500" "[exampleScrobble 2 2500]"
        "Some 600" differenceInDays_fixedOffset "exampleRange 2000 3000"] n
    by blast
  show ?thesis using n a b c by blast
qed

end
